theory Spec2Isabelle
  imports Complex_Main
begin

section \<open>JavaScript values as the scorer receives them\<close>

text \<open>
  The scorer (\<^verbatim>\<open>src/healthcare-risk-scoring.js\<close>) reads patient records out of JSON
  response bodies, so a field holds any JSON value, or \<open>undefined\<close> when it is missing.

  A number is identified with the rational that its canonical decimal rendering
  (\<open>Number::toString\<close>) denotes; that rendering is injective and order preserving on the
  finite doubles, so comparisons of numbers are comparisons of these rationals.
  A string is a list of code units below 256.  The decimal value read out of a string
  by \<open>parseFloat\<close> is kept exact (the rounding to the nearest double is not applied);
  a decimal of at most 15 significant digits in the normal range is the canonical
  rendering of the double it rounds to, so on such strings \<open>parseFloat\<close> is exactly
  the function below.
\<close>

datatype jsnum = NaN | PosInf | NegInf | Fin rat

datatype jsval =
    JUndefined
  | JNull
  | JBool bool
  | JNum jsnum
  | JStr string
  | JArr "jsval list"
  | JObj

text \<open>\<open>ToBoolean\<close>: what \<open>!v\<close>, \<open>v && ...\<close>, \<open>v || ...\<close> and \<open>while (v)\<close> test.\<close>

fun truthy :: "jsval \<Rightarrow> bool" where
  "truthy JUndefined = False"
| "truthy JNull = False"
| "truthy (JBool b) = b"
| "truthy (JNum NaN) = False"
| "truthy (JNum PosInf) = True"
| "truthy (JNum NegInf) = True"
| "truthy (JNum (Fin q)) = (q \<noteq> 0)"
| "truthy (JStr s) = (s \<noteq> [])"
| "truthy (JArr vs) = True"
| "truthy JObj = True"

text \<open>\<open>typeof v === 'string'\<close>.\<close>

fun isString :: "jsval \<Rightarrow> bool" where
  "isString (JStr s) = True"
| "isString v = False"

text \<open>\<open>x >= t\<close> for a number \<open>x\<close> and a finite threshold \<open>t\<close>; false on \<open>NaN\<close>.\<close>

fun num_ge :: "jsnum \<Rightarrow> rat \<Rightarrow> bool" where
  "num_ge NaN t = False"
| "num_ge PosInf t = True"
| "num_ge NegInf t = False"
| "num_ge (Fin q) t = (t \<le> q)"

subsection \<open>Strings: \<open>split\<close>, white space, digits\<close>

text \<open>\<open>s.split(c)\<close> for a one-character separator: never empty, \<open>"".split('/')\<close> is \<open>[""]\<close>.\<close>

fun split :: "char \<Rightarrow> string \<Rightarrow> string list" where
  "split c [] = [[]]"
| "split c (x # xs) =
     (if x = c then [] # split c xs
      else (case split c xs of
              [] \<Rightarrow> [[x]]
            | p # ps \<Rightarrow> (x # p) # ps))"

text \<open>
  \<open>StrWhiteSpaceChar\<close> below code unit 256: tab, line feed, vertical tab, form feed,
  carriage return, space and no-break space.
\<close>

definition isWhiteSpace :: "char \<Rightarrow> bool" where
  "isWhiteSpace c = (of_char c \<in> {9::nat, 10, 11, 12, 13, 32, 160})"

definition trimStart :: "string \<Rightarrow> string" where
  "trimStart s = dropWhile isWhiteSpace s"

text \<open>The value of a digit in radix \<open>r\<close> (10 or 16), \<open>None\<close> for any other character.\<close>

definition digitVal :: "nat \<Rightarrow> char \<Rightarrow> nat option" where
  "digitVal r c =
     (let n = (of_char c :: nat);
          v = (if 48 \<le> n \<and> n \<le> 57 then Some (n - 48)
               else if 97 \<le> n \<and> n \<le> 102 then Some (n - 87)
               else if 65 \<le> n \<and> n \<le> 70 then Some (n - 55)
               else None)
      in case v of None \<Rightarrow> None | Some d \<Rightarrow> (if d < r then Some d else None))"

definition isDigit :: "nat \<Rightarrow> char \<Rightarrow> bool" where
  "isDigit r c = (digitVal r c \<noteq> None)"

text \<open>The number a digit string denotes in radix \<open>r\<close>, most significant digit first.\<close>

definition digitsVal :: "nat \<Rightarrow> string \<Rightarrow> nat" where
  "digitsVal r ds = foldl (\<lambda>a c. a * r + (case digitVal r c of None \<Rightarrow> 0 | Some d \<Rightarrow> d)) 0 ds"

subsection \<open>\<open>parseInt\<close>\<close>

text \<open>
  \<open>parseInt(s)\<close> with no radix, on a string: skip leading white space, read a sign,
  switch to radix 16 after \<open>0x\<close> or \<open>0X\<close>, read the longest run of digits; \<open>NaN\<close>
  (here \<open>None\<close>) when that run is empty.  Whatever follows the digits is ignored.
\<close>

definition parseIntStr :: "string \<Rightarrow> int option" where
  "parseIntStr s =
     (let t = trimStart s;
          neg = (t \<noteq> [] \<and> hd t = CHR ''-'');
          u = (if t \<noteq> [] \<and> (hd t = CHR ''+'' \<or> hd t = CHR ''-'') then tl t else t);
          hex = (take 2 u = ''0x'' \<or> take 2 u = ''0X'');
          r = (if hex then 16 else 10);
          w = (if hex then drop 2 u else u);
          z = takeWhile (isDigit r) w
      in if z = [] then None
         else Some ((if neg then - 1 else 1) * int (digitsVal r z)))"

text \<open>
  The first significant decimal digit of a positive rational: what \<open>parseInt\<close> reads from
  a number that \<open>Number::toString\<close> renders in exponent notation (\<open>1e+21\<close>, \<open>5e-7\<close>).
\<close>

function leadDown :: "rat \<Rightarrow> int" where
  "leadDown a = (if a < 10 then \<lfloor>a\<rfloor> else leadDown (a / 10))"
  by pat_completeness auto
termination
proof (relation "measure (\<lambda>a. nat \<lfloor>a\<rfloor>)")
  show "wf (measure (\<lambda>a::rat. nat \<lfloor>a\<rfloor>))" by simp
next
  fix a :: rat
  assume "\<not> a < 10"
  then have a: "10 \<le> a" by simp
  have "a / 10 \<le> a - 1" using a by linarith
  then have "\<lfloor>a / 10\<rfloor> \<le> \<lfloor>a - 1\<rfloor>" by (rule floor_mono)
  then have "\<lfloor>a / 10\<rfloor> < \<lfloor>a\<rfloor>" by simp
  moreover have "0 < \<lfloor>a\<rfloor>" using a by linarith
  ultimately have "nat \<lfloor>a / 10\<rfloor> < nat \<lfloor>a\<rfloor>" by linarith
  then show "(a / 10, a) \<in> measure (\<lambda>a. nat \<lfloor>a\<rfloor>)" by (simp only: in_measure)
qed

function leadUp :: "rat \<Rightarrow> int" where
  "leadUp a = (if a \<le> 0 \<or> 1 \<le> a then \<lfloor>a\<rfloor> else leadUp (a * 10))"
  by pat_completeness auto
termination
proof (relation "measure (\<lambda>a. nat \<lfloor>1 / a\<rfloor>)")
  show "wf (measure (\<lambda>a::rat. nat \<lfloor>1 / a\<rfloor>))" by simp
next
  fix a :: rat
  assume "\<not> (a \<le> 0 \<or> 1 \<le> a)"
  then have a: "0 < a" "a < 1" by simp_all
  define b where "b = 1 / a"
  have b: "1 < b" using a by (simp add: b_def)
  have "\<lfloor>b / 10\<rfloor> < \<lfloor>b\<rfloor>"
  proof (cases "b < 10")
    case True
    then have "\<lfloor>b / 10\<rfloor> = 0" using b by (simp add: floor_eq_iff)
    moreover have "1 \<le> \<lfloor>b\<rfloor>" using b by (simp add: le_floor_iff)
    ultimately show ?thesis by simp
  next
    case False
    then have "b / 10 \<le> b - 1" by linarith
    then have "\<lfloor>b / 10\<rfloor> \<le> \<lfloor>b - 1\<rfloor>" by (rule floor_mono)
    then show ?thesis by simp
  qed
  moreover have "0 < \<lfloor>b\<rfloor>" using b by linarith
  ultimately have "nat \<lfloor>b / 10\<rfloor> < nat \<lfloor>b\<rfloor>" by linarith
  moreover have "1 / (a * 10) = b / 10" by (simp add: b_def)
  ultimately have "nat \<lfloor>1 / (a * 10)\<rfloor> < nat \<lfloor>1 / a\<rfloor>" by (simp only: b_def)
  then show "(a * 10, a) \<in> measure (\<lambda>a. nat \<lfloor>1 / a\<rfloor>)" by (simp only: in_measure)
qed

text \<open>
  \<open>parseInt(x)\<close> on a number first renders it: between \<open>1e-6\<close> and \<open>1e21\<close> in plain
  decimal notation, whose integer part \<open>parseInt\<close> reads (truncation towards zero);
  beyond that in exponent notation, of which it reads the first digit.  \<open>NaN\<close> and
  \<open>Infinity\<close> render as words without a digit.
\<close>

fun parseIntNum :: "jsnum \<Rightarrow> int option" where
  "parseIntNum NaN = None"
| "parseIntNum PosInf = None"
| "parseIntNum NegInf = None"
| "parseIntNum (Fin q) =
     (let a = \<bar>q\<bar>;
          m = (if a = 0 then 0
               else if 10 ^ 21 \<le> a then leadDown a
               else if a * 10 ^ 6 < 1 then leadUp a
               else \<lfloor>a\<rfloor>)
      in Some (if q < 0 then - m else m))"

text \<open>
  \<open>parseInt(v)\<close> on any value parses \<open>ToString(v)\<close>.  \<open>undefined\<close>, \<open>null\<close>, \<open>true\<close>,
  \<open>false\<close> and \<open>[object Object]\<close> hold no leading digit.  An array renders as its
  elements joined by commas (\<open>null\<close> and \<open>undefined\<close> elements as the empty string), and
  a comma ends every numeric prefix, so only the first element is read.
\<close>

fun parseInt :: "jsval \<Rightarrow> int option" where
  "parseInt JUndefined = None"
| "parseInt JNull = None"
| "parseInt (JBool b) = None"
| "parseInt (JNum x) = parseIntNum x"
| "parseInt (JStr s) = parseIntStr s"
| "parseInt (JArr []) = None"
| "parseInt (JArr (v # vs)) = parseInt v"
| "parseInt JObj = None"

subsection \<open>\<open>parseFloat\<close>\<close>

text \<open>
  \<open>parseFloat(s)\<close> on a string: skip leading white space and read the longest prefix
  that is a \<open>StrDecimalLiteral\<close>: a sign, then \<open>Infinity\<close> or digits with an optional
  fraction and an optional exponent (an exponent counts only when it has digits).
\<close>

definition scale10 :: "rat \<Rightarrow> int \<Rightarrow> rat" where
  "scale10 m e = (if 0 \<le> e then m * 10 ^ nat e else m / 10 ^ nat (- e))"

definition parseExponent :: "string \<Rightarrow> int" where
  "parseExponent r =
     (if r \<noteq> [] \<and> (hd r = CHR ''e'' \<or> hd r = CHR ''E'') then
        (let r1 = tl r;
             eneg = (r1 \<noteq> [] \<and> hd r1 = CHR ''-'');
             r2 = (if r1 \<noteq> [] \<and> (hd r1 = CHR ''+'' \<or> hd r1 = CHR ''-'') then tl r1 else r1);
             ed = takeWhile (isDigit 10) r2
         in if ed = [] then 0
            else (if eneg then - int (digitsVal 10 ed) else int (digitsVal 10 ed)))
      else 0)"

definition parseFloatStr :: "string \<Rightarrow> jsnum" where
  "parseFloatStr s =
     (let t = trimStart s;
          neg = (t \<noteq> [] \<and> hd t = CHR ''-'');
          u = (if t \<noteq> [] \<and> (hd t = CHR ''+'' \<or> hd t = CHR ''-'') then tl t else t)
      in if take 8 u = ''Infinity'' then (if neg then NegInf else PosInf)
         else
           (let ip = takeWhile (isDigit 10) u;
                r1 = dropWhile (isDigit 10) u;
                dot = (r1 \<noteq> [] \<and> hd r1 = CHR ''.'');
                fp = (if dot then takeWhile (isDigit 10) (tl r1) else []);
                r2 = (if dot then dropWhile (isDigit 10) (tl r1) else r1)
            in if ip = [] \<and> fp = [] then NaN
               else
                 (let m = of_nat (digitsVal 10 (ip @ fp)) / 10 ^ length fp;
                      v = scale10 m (parseExponent r2)
                  in Fin (if neg then - v else v))))"

text \<open>
  \<open>parseFloat(v)\<close> on any value parses \<open>ToString(v)\<close>; a number's rendering reads back
  as the number itself.
\<close>

fun parseFloat :: "jsval \<Rightarrow> jsnum" where
  "parseFloat JUndefined = NaN"
| "parseFloat JNull = NaN"
| "parseFloat (JBool b) = NaN"
| "parseFloat (JNum x) = x"
| "parseFloat (JStr s) = parseFloatStr s"
| "parseFloat (JArr []) = NaN"
| "parseFloat (JArr (v # vs)) = parseFloat v"
| "parseFloat JObj = NaN"

section \<open>Field risk evaluators\<close>

text \<open>
  \<open>calculateBPRisk\<close>, \<open>calculateTemperatureRisk\<close> and \<open>calculateAgeRisk\<close>, with the
  early returns of the source as the branches of the conditionals, in the source's
  order.
\<close>

definition calculateBPRisk :: "jsval \<Rightarrow> nat" where
  "calculateBPRisk bloodPressure =
     (if \<not> truthy bloodPressure \<or> \<not> isString bloodPressure then 0
      else
        (let parts = (case bloodPressure of JStr str \<Rightarrow> split CHR ''/'' str | _ \<Rightarrow> [])
         in if length parts \<noteq> 2 then 0
            else
              (case (parseIntStr (parts ! 0), parseIntStr (parts ! 1)) of
                 (Some systolic, Some diastolic) \<Rightarrow>
                   (if 140 \<le> systolic \<or> 90 \<le> diastolic then 4
                    else if 130 \<le> systolic \<or> 80 \<le> diastolic then 3
                    else if 120 \<le> systolic \<and> diastolic < 80 then 2
                    else if systolic < 120 \<and> diastolic < 80 then 1
                    else 0)
               | _ \<Rightarrow> 0)))"

definition calculateTemperatureRisk :: "jsval \<Rightarrow> nat" where
  "calculateTemperatureRisk temperature =
     (if temperature = JNull \<or> temperature = JUndefined then 0
      else
        (let temp = parseFloat temperature
         in if temp = NaN then 0
            else if num_ge temp 101 then 2
            else if num_ge temp (996 / 10) then 1
            else 0))"

definition calculateAgeRisk :: "jsval \<Rightarrow> nat" where
  "calculateAgeRisk age =
     (if age = JNull \<or> age = JUndefined then 0
      else
        (case parseInt age of
           None \<Rightarrow> 0
         | Some ageNum \<Rightarrow>
             (if 65 < ageNum then 2
              else if 40 \<le> ageNum then 1
              else 1)))"

section \<open>Data quality validator and risk aggregator\<close>

record patient =
  patient_id :: jsval
  blood_pressure :: jsval
  temperature :: jsval
  age :: jsval

definition hasDataQualityIssues :: "patient \<Rightarrow> bool" where
  "hasDataQualityIssues p =
     (if \<not> truthy (blood_pressure p) \<or> \<not> isString (blood_pressure p) then True
      else
        (let bpParts = (case blood_pressure p of JStr str \<Rightarrow> split CHR ''/'' str | _ \<Rightarrow> [])
         in if length bpParts \<noteq> 2 then True
            else if parseIntStr (bpParts ! 0) = None \<or> parseIntStr (bpParts ! 1) = None then True
            else if temperature p = JNull \<or> temperature p = JUndefined then True
            else if parseFloat (temperature p) = NaN then True
            else if age p = JNull \<or> age p = JUndefined then True
            else if parseInt (age p) = None then True
            else False))"

record results =
  highRiskPatients :: "jsval list"
  feverPatients :: "jsval list"
  dataQualityIssues :: "jsval list"

definition totalRisk :: "patient \<Rightarrow> nat" where
  "totalRisk p =
     calculateBPRisk (blood_pressure p) + calculateTemperatureRisk (temperature p)
       + calculateAgeRisk (age p)"

text \<open>The body of the \<open>forEach\<close> callback of \<open>processPatients\<close>, on the accumulated results.\<close>

definition processPatient :: "results \<Rightarrow> patient \<Rightarrow> results" where
  "processPatient res p =
     (if hasDataQualityIssues p then
        res\<lparr>dataQualityIssues := dataQualityIssues res @ [patient_id p]\<rparr>
      else
        (let res1 = (if 4 \<le> totalRisk p
                     then res\<lparr>highRiskPatients := highRiskPatients res @ [patient_id p]\<rparr>
                     else res);
             temp = parseFloat (temperature p)
         in if num_ge temp (996 / 10)
            then res1\<lparr>feverPatients := feverPatients res1 @ [patient_id p]\<rparr>
            else res1))"

definition processPatients :: "patient list \<Rightarrow> results" where
  "processPatients patients =
     foldl processPatient
       \<lparr>highRiskPatients = [], feverPatients = [], dataQualityIssues = []\<rparr> patients"

section \<open>Resilient fetcher\<close>

text \<open>
  The HTTP client is the scorer's environment.  An axios call either resolves with a
  response, of which the scorer reads the body \<open>response.data\<close>, or rejects with an
  error that carries the status of the response, if there was one.  The scorer asks for
  each URL inside one call of \<open>makeRequestWithRetry\<close> only, so the environment is given
  as the outcome of the \<open>attempt\<close>-th \<open>GET\<close> of each URL.  What the scorer does to
  the outside (requests and timer waits, in milliseconds) is recorded as a list of events.
\<close>

datatype url = PatientsPage nat nat
  \<comment> \<open>\<^verbatim>\<open>/patients?page=${page}&limit=${limit}\<close>\<close>

datatype error = NoResponse | Status nat

datatype 'b outcome = Resolved 'b | Rejected error

datatype event = Request url | Delay nat

datatype 'b completion = Return 'b | ReturnUndefined | Throw error

text \<open>\<open>error.response && [429, 500, 503].includes(error.response.status)\<close>\<close>

fun retryable :: "error \<Rightarrow> bool" where
  "retryable NoResponse = False"
| "retryable (Status st) = (st \<in> set [429, 500, 503])"

text \<open>
  The \<open>for\<close> loop of \<open>makeRequestWithRetry\<close>, from attempt number \<open>attempt\<close> on.  When
  the loop ends without an attempt the function returns nothing (\<open>undefined\<close>).
\<close>

function mrrLoop ::
  "(url \<Rightarrow> nat \<Rightarrow> 'b outcome) \<Rightarrow> url \<Rightarrow> nat \<Rightarrow> nat \<Rightarrow> nat \<Rightarrow> event list
     \<Rightarrow> 'b completion \<times> event list" where
  "mrrLoop get u maxRetries retryDelay attempt evs =
     (if attempt \<le> maxRetries then
        (case get u attempt of
           Resolved d \<Rightarrow> (Return d, evs @ [Request u])
         | Rejected e \<Rightarrow>
             (if retryable e then
                (if attempt = maxRetries then (Throw e, evs @ [Request u])
                 else mrrLoop get u maxRetries retryDelay (Suc attempt)
                        (evs @ [Request u, Delay (retryDelay * attempt)]))
              else (Throw e, evs @ [Request u])))
      else (ReturnUndefined, evs))"
  by pat_completeness auto
termination
  by (relation "measure (\<lambda>(get, u, maxRetries, retryDelay, attempt, evs). maxRetries - attempt)")
     auto

definition makeRequestWithRetry ::
  "(url \<Rightarrow> nat \<Rightarrow> 'b outcome) \<Rightarrow> url \<Rightarrow> nat \<Rightarrow> nat \<Rightarrow> 'b completion \<times> event list" where
  "makeRequestWithRetry get u maxRetries retryDelay = mrrLoop get u maxRetries retryDelay 1 []"

text \<open>
  A page body \<open>{ data: [...], pagination: { hasNext: ... } }\<close>.  \<open>data\<close> is \<open>None\<close>
  when the property is missing or falsy (an array, even an empty one, is truthy);
  \<open>pagination\<close> is \<open>None\<close> when it is missing or \<open>null\<close>, and its \<open>hasNext\<close> is
  \<open>JUndefined\<close> when missing.  The body itself may be falsy (\<open>None\<close>).
\<close>

record pagination =
  hasNext :: jsval

record body =
  data :: "patient list option"
  pagination :: "pagination option"

text \<open>
  The \<open>while (hasNext)\<close> loop of \<open>fetchAllPatients\<close>.  It need not end: a service that
  always announces a next page keeps it running, and then the value is \<open>None\<close>.
\<close>

partial_function (option) fetchLoop ::
  "(url \<Rightarrow> nat \<Rightarrow> body option outcome) \<Rightarrow> bool \<Rightarrow> nat \<Rightarrow> patient list \<Rightarrow> event list
     \<Rightarrow> ((error + patient list) \<times> event list) option" where
  "fetchLoop get hasNxt page allPatients evs =
     (if hasNxt then
        (case makeRequestWithRetry get (PatientsPage page 20) 3 1000 of
           (Throw e, es) \<Rightarrow> Some (Inl e, evs @ es)
         | (ReturnUndefined, es) \<Rightarrow> Some (Inr allPatients, evs @ es)
         | (Return None, es) \<Rightarrow> Some (Inr allPatients, evs @ es)
         | (Return (Some b), es) \<Rightarrow>
             (case data b of
                None \<Rightarrow> Some (Inr allPatients, evs @ es)
              | Some recs \<Rightarrow>
                  fetchLoop get
                    (case pagination b of None \<Rightarrow> False | Some pg \<Rightarrow> truthy (hasNext pg))
                    (Suc page) (allPatients @ recs) (evs @ es @ [Delay 200])))
      else Some (Inr allPatients, evs))"

definition fetchAllPatients ::
  "(url \<Rightarrow> nat \<Rightarrow> body option outcome) \<Rightarrow> ((error + patient list) \<times> event list) option" where
  "fetchAllPatients get = fetchLoop get True 1 [] []"

section \<open>Notions of the specification\<close>

text \<open>
  A well-formed blood-pressure reading in the specification's words: a string that
  splits at \<open>/\<close> into exactly two parts, both parseable by \<open>parseInt\<close>; the reading is
  the pair of the systolic and the diastolic value.
\<close>

definition bpReading :: "jsval \<Rightarrow> (int \<times> int) option" where
  "bpReading raw =
     (case raw of
        JStr str \<Rightarrow>
          (case split CHR ''/'' str of
             [x, y] \<Rightarrow>
               (case (parseIntStr x, parseIntStr y) of
                  (Some s, Some d) \<Rightarrow> Some (s, d)
                | _ \<Rightarrow> None)
           | _ \<Rightarrow> None)
      | _ \<Rightarrow> None)"

text \<open>
  The parse checks inside the three evaluators: the conditions of the early
  \<open>return 0\<close> statements that precede the classification in \<open>calculateBPRisk\<close>,
  \<open>calculateTemperatureRisk\<close> and \<open>calculateAgeRisk\<close>.
\<close>

definition bpParseFails :: "jsval \<Rightarrow> bool" where
  "bpParseFails bloodPressure =
     (if \<not> truthy bloodPressure \<or> \<not> isString bloodPressure then True
      else
        (let parts = (case bloodPressure of JStr str \<Rightarrow> split CHR ''/'' str | _ \<Rightarrow> [])
         in if length parts \<noteq> 2 then True
            else parseIntStr (parts ! 0) = None \<or> parseIntStr (parts ! 1) = None))"

definition tempParseFails :: "jsval \<Rightarrow> bool" where
  "tempParseFails t =
     (if t = JNull \<or> t = JUndefined then True
      else parseFloat t = NaN)"

definition ageParseFails :: "jsval \<Rightarrow> bool" where
  "ageParseFails a =
     (if a = JNull \<or> a = JUndefined then True
      else parseInt a = None)"

text \<open>
  An attempt fails retryably when it is rejected with status 429, 500 or 503; an attempt
  that settles the call does so with its response body or with its error.
\<close>

definition retryableFailure :: "'b outcome \<Rightarrow> bool" where
  "retryableFailure oc = (case oc of Resolved d \<Rightarrow> False | Rejected e \<Rightarrow> retryable e)"

definition settle :: "'b outcome \<Rightarrow> 'b completion" where
  "settle oc = (case oc of Resolved d \<Rightarrow> Return d | Rejected e \<Rightarrow> Throw e)"

text \<open>
  What a page response tells the pagination loop: whether it carries a data payload,
  the records of that payload, and whether it announces a further page (a
  \<open>pagination.hasNext\<close> that is present and truthy).  \<open>pageReturns get p r\<close> says that
  the request for page \<open>p\<close>, retries included, ends with the response body \<open>r\<close>;
  \<open>pagesRequested\<close> collects the page numbers an event list asked for.
\<close>

definition hasPayload :: "body option \<Rightarrow> bool" where
  "hasPayload r = (case r of None \<Rightarrow> False | Some b \<Rightarrow> data b \<noteq> None)"

definition payload :: "body option \<Rightarrow> patient list" where
  "payload r = (case r of None \<Rightarrow> [] | Some b \<Rightarrow> (case data b of None \<Rightarrow> [] | Some recs \<Rightarrow> recs))"

definition announcesNext :: "body option \<Rightarrow> bool" where
  "announcesNext r =
     (case r of
        None \<Rightarrow> False
      | Some b \<Rightarrow> (case pagination b of None \<Rightarrow> False | Some pg \<Rightarrow> truthy (hasNext pg)))"

definition pageReturns :: "(url \<Rightarrow> nat \<Rightarrow> body option outcome) \<Rightarrow> nat \<Rightarrow> body option \<Rightarrow> bool" where
  "pageReturns get p r = (fst (makeRequestWithRetry get (PatientsPage p 20) 3 1000) = Return r)"

definition pagesRequested :: "event list \<Rightarrow> nat set" where
  "pagesRequested evs = {p. Request (PatientsPage p 20) \<in> set evs}"

text \<open>
  Two services to run the fetcher against: one of three pages, whose second page answers
  503 twice before it succeeds and whose third page carries no pagination object, and
  one that announces a next page for ever.
\<close>

definition demoPatient :: "string \<Rightarrow> patient" where
  "demoPatient name =
     \<lparr>patient_id = JStr name, blood_pressure = JStr ''120/80'', temperature = JNum (Fin 98),
      age = JNum (Fin 50)\<rparr>"

definition demoPages :: "nat \<Rightarrow> body option" where
  "demoPages p =
     (if p = 1 then
        Some \<lparr>data = Some [demoPatient ''A''], pagination = Some \<lparr>hasNext = JBool True\<rparr>\<rparr>
      else if p = 2 then
        Some \<lparr>data = Some [demoPatient ''B'', demoPatient ''C''],
              pagination = Some \<lparr>hasNext = JBool True\<rparr>\<rparr>
      else
        Some \<lparr>data = Some [demoPatient ''D''], pagination = None\<rparr>)"

definition demoService :: "url \<Rightarrow> nat \<Rightarrow> body option outcome" where
  "demoService u attempt =
     (case u of PatientsPage p l \<Rightarrow>
        if p = 2 \<and> attempt < 3 then Rejected (Status 503) else Resolved (demoPages p))"

definition endlessService :: "url \<Rightarrow> nat \<Rightarrow> body option outcome" where
  "endlessService u attempt =
     Resolved (Some \<lparr>data = Some [], pagination = Some \<lparr>hasNext = JBool True\<rparr>\<rparr>)"

section \<open>Properties of the evaluators\<close>

lemmas parse_defs =
  parseIntStr_def parseFloatStr_def parseExponent_def scale10_def trimStart_def
  isWhiteSpace_def isDigit_def digitVal_def digitsVal_def

lemma split_nonempty: "split c s \<noteq> []"
  by (cases s) (auto split: list.splits)

lemma length2_iff: "length xs = 2 \<longleftrightarrow> (\<exists>x y. xs = [x, y])"
  by (cases xs; cases "tl xs") (auto simp: Suc_length_conv)

lemma bpParseFails_reading: "bpParseFails raw = (bpReading raw = None)"
  by (cases raw) (auto simp: bpParseFails_def bpReading_def Let_def length2_iff split_nonempty
      split: list.splits option.splits)

lemma calculateBPRisk_reading:
  "calculateBPRisk raw =
     (case bpReading raw of
        None \<Rightarrow> 0
      | Some (s, d) \<Rightarrow>
          (if 140 \<le> s \<or> 90 \<le> d then 4
           else if 130 \<le> s \<or> 80 \<le> d then 3
           else if 120 \<le> s \<and> d < 80 then 2
           else if s < 120 \<and> d < 80 then 1
           else 0))"
  by (cases raw) (auto simp: calculateBPRisk_def bpReading_def Let_def length2_iff split_nonempty
      split: list.splits option.splits)

lemma calculateTemperatureRisk_guard:
  "calculateTemperatureRisk raw =
     (if tempParseFails raw then 0
      else if num_ge (parseFloat raw) 101 then 2
      else if num_ge (parseFloat raw) (996 / 10) then 1
      else 0)"
  by (simp add: calculateTemperatureRisk_def tempParseFails_def Let_def)

lemma calculateAgeRisk_guard:
  "calculateAgeRisk raw =
     (if ageParseFails raw then 0
      else if 65 < the (parseInt raw) then 2 else 1)"
  by (auto simp: calculateAgeRisk_def ageParseFails_def split: option.splits)

lemma tempParseFails_iff: "tempParseFails raw = (parseFloat raw = NaN)"
  by (auto simp: tempParseFails_def)

lemma ageParseFails_iff: "ageParseFails raw = (parseInt raw = None)"
  by (auto simp: ageParseFails_def)

lemma calculateBPRisk_le_4: "calculateBPRisk raw \<le> 4"
  by (simp add: calculateBPRisk_reading split: option.splits)

lemma calculateTemperatureRisk_le_2: "calculateTemperatureRisk raw \<le> 2"
  by (simp add: calculateTemperatureRisk_guard)

lemma calculateAgeRisk_le_2: "calculateAgeRisk raw \<le> 2"
  by (simp add: calculateAgeRisk_guard)

lemma hasDataQualityIssues_guards:
  "hasDataQualityIssues p =
     (bpParseFails (blood_pressure p) \<or> tempParseFails (temperature p) \<or> ageParseFails (age p))"
  by (auto simp: hasDataQualityIssues_def bpParseFails_def tempParseFails_def ageParseFails_def
      Let_def)

subsection \<open>Blood pressure\<close>

text \<open>
  Claim C2, as amended.  \<open>calculateBPRisk\<close> returns 0 when its argument is not a
  well-formed reading (not a string, not exactly two parts around \<open>/\<close>, or a part in
  which \<open>parseInt\<close> finds no leading integer).  On a reading with systolic \<open>S\<close> and
  diastolic \<open>D\<close> it returns the value of the first matching rule, in the order
  \<open>S \<ge> 140 or D \<ge> 90\<close>: 4; \<open>S \<ge> 130 or D \<ge> 80\<close>: 3; \<open>S \<ge> 120 and D < 80\<close>: 2;
  \<open>S < 120 and D < 80\<close>: 1; otherwise 0.  The four rules cover every reading, so the
  result is never 0 on a reading, and a diastolic value in \<open>[80, 90)\<close> with \<open>S < 120\<close>
  gives 3 by the second rule.
\<close>

theorem calculateBPRisk_rules:
  "(bpReading raw = None \<longrightarrow> calculateBPRisk raw = 0) \<and>
   (bpReading raw = Some (S, D) \<longrightarrow>
      calculateBPRisk raw =
        (if 140 \<le> S \<or> 90 \<le> D then 4
         else if 130 \<le> S \<or> 80 \<le> D then 3
         else if 120 \<le> S \<and> D < 80 then 2
         else if S < 120 \<and> D < 80 then 1
         else 0) \<and>
      calculateBPRisk raw \<noteq> 0 \<and>
      (S < 120 \<and> 80 \<le> D \<and> D < 90 \<longrightarrow> calculateBPRisk raw = 3))"
  by (simp add: calculateBPRisk_reading)

theorem calculateBPRisk_rules_witness:
  "bpReading (JStr ''118/84'') = Some (118, 84) \<and> calculateBPRisk (JStr ''118/84'') = 3
   \<and> bpReading (JStr ''abc/80'') = None \<and> calculateBPRisk (JStr ''abc/80'') = 0"
  using calculateBPRisk_rules [of "JStr ''118/84''" 118 84]
    calculateBPRisk_rules [of "JStr ''abc/80''"]
  by (simp add: bpReading_def parse_defs)

text \<open>
  Claim C2 as it was stated fails: a diastolic value in \<open>[80, 90)\<close> with \<open>S < 120\<close>
  does not yield 0, and a part that is not an integer but starts with one is read up
  to its last digit.
\<close>

theorem calculateBPRisk_gap_counterexample:
  "calculateBPRisk (JStr ''110/85'') = 3 \<and> calculateBPRisk (JStr ''110/85'') \<noteq> 0
   \<and> calculateBPRisk (JStr ''12o/80'') = 3 \<and> calculateBPRisk (JStr ''12o/80'') \<noteq> 0"
  by (simp add: calculateBPRisk_def parse_defs)

text \<open>
  Claim C8, as amended.  Over well-formed readings \<open>calculateBPRisk\<close> is monotonically
  non-decreasing in the systolic and in the diastolic value (everywhere, hence within
  each rule's domain), and the order of the rules is respected: the reading
  \<open>(135, 70)\<close> yields 3 and the reading \<open>(119, 85)\<close> yields 3.
\<close>

theorem calculateBPRisk_mono:
  "(bpReading raw = Some (S, D) \<and> bpReading raw' = Some (S', D') \<and> S \<le> S' \<and> D \<le> D'
      \<longrightarrow> calculateBPRisk raw \<le> calculateBPRisk raw') \<and>
   (bpReading raw = Some (135, 70) \<longrightarrow> calculateBPRisk raw = 3) \<and>
   (bpReading raw = Some (119, 85) \<longrightarrow> calculateBPRisk raw = 3)"
  by (simp add: calculateBPRisk_reading)

theorem calculateBPRisk_mono_witness:
  "bpReading (JStr ''119/79'') = Some (119, 79) \<and> bpReading (JStr ''119/85'') = Some (119, 85)
   \<and> calculateBPRisk (JStr ''119/79'') \<le> calculateBPRisk (JStr ''119/85'')
   \<and> bpReading (JStr ''135/70'') = Some (135, 70) \<and> calculateBPRisk (JStr ''135/70'') = 3
   \<and> calculateBPRisk (JStr ''119/85'') = 3"
  using calculateBPRisk_mono [of "JStr ''119/79''" 119 79 "JStr ''119/85''" 119 85]
    calculateBPRisk_mono [of "JStr ''135/70''" 0 0 "JStr ''135/70''" 0 0]
    calculateBPRisk_mono [of "JStr ''119/85''" 0 0 "JStr ''119/85''" 0 0]
  by (simp add: bpReading_def parse_defs)

text \<open>Claim C8 as it was stated fails: the pair \<open>(119, 85)\<close> does not yield 0.\<close>

theorem calculateBPRisk_119_85_counterexample:
  "calculateBPRisk (JStr ''119/85'') = 3 \<and> calculateBPRisk (JStr ''119/85'') \<noteq> 0"
  by (simp add: calculateBPRisk_def parse_defs)

subsection \<open>Temperature\<close>



subsection \<open>Age\<close>

text \<open>
  Claim C7.  \<open>calculateAgeRisk\<close> returns 0 when \<open>parseInt\<close> finds no integer in its
  argument (\<open>null\<close> included); otherwise 2 when the parsed age is above 65 and 1 for
  every other parsed age (40 and above, below 40, zero, negative), so a parseable age
  never scores 0; it gives 2 on 66, 1 on 40, 1 on 10 and 0 on \<open>null\<close>.
\<close>

theorem calculateAgeRisk_spec:
  "calculateAgeRisk raw =
     (case parseInt raw of None \<Rightarrow> 0 | Some a \<Rightarrow> if 65 < a then 2 else 1) \<and>
   calculateAgeRisk (JNum (Fin 66)) = 2 \<and>
   calculateAgeRisk (JNum (Fin 40)) = 1 \<and>
   calculateAgeRisk (JNum (Fin 10)) = 1 \<and>
   calculateAgeRisk JNull = 0"
  by (auto simp: calculateAgeRisk_def split: option.splits)

theorem calculateAgeRisk_spec_witness:
  "calculateAgeRisk (JStr ''-3'') = 1 \<and> calculateAgeRisk (JNum (Fin 0)) = 1
   \<and> calculateAgeRisk (JStr ''65'') = 1 \<and> calculateAgeRisk (JStr ''seventy'') = 0"
  using calculateAgeRisk_spec [of "JStr ''-3''"] calculateAgeRisk_spec [of "JNum (Fin 0)"]
    calculateAgeRisk_spec [of "JStr ''65''"] calculateAgeRisk_spec [of "JStr ''seventy''"]
  by (simp add: parse_defs)

section \<open>Properties of the validator and the aggregator\<close>

text \<open>
  Claim C10.  \<open>hasDataQualityIssues\<close> returns false exactly when the blood pressure,
  the temperature and the age each pass the parse checks of their evaluator; each
  evaluator returns 0 when its parse check fails, so on a record that passes the
  validator no evaluator takes its parse-failure branch: the blood-pressure and age
  scores are not 0 and the temperature parses to a number.
\<close>

theorem hasDataQualityIssues_iff_parse_checks:
  "(hasDataQualityIssues p = False) =
     (\<not> bpParseFails (blood_pressure p) \<and> \<not> tempParseFails (temperature p)
        \<and> \<not> ageParseFails (age p)) \<and>
   (bpParseFails v \<longrightarrow> calculateBPRisk v = 0) \<and>
   (tempParseFails v \<longrightarrow> calculateTemperatureRisk v = 0) \<and>
   (ageParseFails v \<longrightarrow> calculateAgeRisk v = 0) \<and>
   (hasDataQualityIssues p = False \<longrightarrow>
      calculateBPRisk (blood_pressure p) \<noteq> 0 \<and> calculateAgeRisk (age p) \<noteq> 0
      \<and> parseFloat (temperature p) \<noteq> NaN)"
  by (auto simp: hasDataQualityIssues_guards calculateBPRisk_reading bpParseFails_reading
      calculateTemperatureRisk_guard calculateAgeRisk_guard tempParseFails_iff)

theorem hasDataQualityIssues_iff_parse_checks_witness:
  "hasDataQualityIssues \<lparr>patient_id = JStr ''P3'', blood_pressure = JStr ''128/79'',
        temperature = JStr ''98.6'', age = JStr ''41''\<rparr> = False
   \<and> calculateBPRisk (JStr ''128/79'') \<noteq> 0 \<and> calculateAgeRisk (JStr ''41'') \<noteq> 0
   \<and> parseFloat (JStr ''98.6'') \<noteq> NaN
   \<and> bpParseFails (JStr ''128'') \<and> calculateBPRisk (JStr ''128'') = 0"
proof -
  have b: "\<not> bpParseFails (JStr ''128/79'')" by (simp add: bpParseFails_def parse_defs)
  have t: "\<not> tempParseFails (JStr ''98.6'')" by (simp add: tempParseFails_def parse_defs)
  have a: "\<not> ageParseFails (JStr ''41'')" by (simp add: ageParseFails_def parse_defs)
  have f: "bpParseFails (JStr ''128'')" by (simp add: bpParseFails_def)
  show ?thesis
    using b t a f
      hasDataQualityIssues_iff_parse_checks [of "\<lparr>patient_id = JStr ''P3'',
        blood_pressure = JStr ''128/79'', temperature = JStr ''98.6'', age = JStr ''41''\<rparr>"
        "JStr ''128''"]
    by simp
qed

text \<open>
  Claim C9.  On a record that passes the validator the total risk score lies between
  1 and 8: it is never 0, because the age parses and a parsed age scores at least 1.
\<close>

theorem totalRisk_bounds:
  "\<not> hasDataQualityIssues p \<Longrightarrow>
     1 \<le> totalRisk p \<and> totalRisk p \<le> 8 \<and> totalRisk p \<noteq> 0 \<and> 1 \<le> calculateAgeRisk (age p)"
proof -
  assume ok: "\<not> hasDataQualityIssues p"
  then have "\<not> ageParseFails (age p)" by (simp add: hasDataQualityIssues_guards)
  then have a: "1 \<le> calculateAgeRisk (age p)" by (simp add: calculateAgeRisk_guard)
  have "calculateBPRisk (blood_pressure p) \<le> 4" by (rule calculateBPRisk_le_4)
  moreover have "calculateTemperatureRisk (temperature p) \<le> 2"
    by (rule calculateTemperatureRisk_le_2)
  moreover have "calculateAgeRisk (age p) \<le> 2" by (rule calculateAgeRisk_le_2)
  ultimately show ?thesis using a by (simp add: totalRisk_def)
qed

theorem totalRisk_bounds_witness:
  "\<not> hasDataQualityIssues \<lparr>patient_id = JStr ''P7'', blood_pressure = JStr ''150/95'',
        temperature = JStr ''102.5'', age = JNum (Fin 81)\<rparr>
   \<and> 1 \<le> totalRisk \<lparr>patient_id = JStr ''P7'', blood_pressure = JStr ''150/95'',
        temperature = JStr ''102.5'', age = JNum (Fin 81)\<rparr>
   \<and> totalRisk \<lparr>patient_id = JStr ''P7'', blood_pressure = JStr ''150/95'',
        temperature = JStr ''102.5'', age = JNum (Fin 81)\<rparr> \<le> 8"
proof -
  have h: "\<not> hasDataQualityIssues \<lparr>patient_id = JStr ''P7'', blood_pressure = JStr ''150/95'',
        temperature = JStr ''102.5'', age = JNum (Fin 81)\<rparr>"
    by (simp add: hasDataQualityIssues_def parse_defs)
  show ?thesis using h totalRisk_bounds [OF h] by simp
qed

text \<open>
  The lower bound is not attained: a validated record has a blood-pressure reading,
  which scores at least 1 as well.
\<close>

lemma totalRisk_ge_2: "\<not> hasDataQualityIssues p \<Longrightarrow> 2 \<le> totalRisk p"
proof -
  assume ok: "\<not> hasDataQualityIssues p"
  then have "\<not> ageParseFails (age p)" "\<not> bpParseFails (blood_pressure p)"
    by (simp_all add: hasDataQualityIssues_guards)
  then have "1 \<le> calculateAgeRisk (age p)" "1 \<le> calculateBPRisk (blood_pressure p)"
    by (auto simp: calculateAgeRisk_guard calculateBPRisk_reading bpParseFails_reading)
  then show ?thesis by (simp add: totalRisk_def)
qed

lemma processPatient_fields:
  "highRiskPatients (processPatient res p) =
     highRiskPatients res
       @ (if \<not> hasDataQualityIssues p \<and> 4 \<le> totalRisk p then [patient_id p] else [])"
  "feverPatients (processPatient res p) =
     feverPatients res
       @ (if \<not> hasDataQualityIssues p \<and> num_ge (parseFloat (temperature p)) (996 / 10)
          then [patient_id p] else [])"
  "dataQualityIssues (processPatient res p) =
     dataQualityIssues res @ (if hasDataQualityIssues p then [patient_id p] else [])"
  by (simp_all add: processPatient_def Let_def)

lemma processPatient_fold:
  "foldl processPatient res ps =
     \<lparr>highRiskPatients = highRiskPatients res
         @ map patient_id (filter (\<lambda>p. \<not> hasDataQualityIssues p \<and> 4 \<le> totalRisk p) ps),
      feverPatients = feverPatients res
         @ map patient_id
             (filter (\<lambda>p. \<not> hasDataQualityIssues p
                            \<and> num_ge (parseFloat (temperature p)) (996 / 10)) ps),
      dataQualityIssues = dataQualityIssues res
         @ map patient_id (filter hasDataQualityIssues ps)\<rparr>"
proof (induction ps arbitrary: res)
  case Nil
  show ?case by simp
next
  case (Cons p ps)
  show ?case by (simp add: Cons.IH processPatient_fields)
qed



text \<open>
  Claim C3.  A record that fails the validator has its identifier appended to the
  data-quality list and to neither the high-risk nor the fever list, whatever its
  fields hold; a record that passes leaves the data-quality list as it is.  The
  records are processed one after the other in input order.  A record without an age
  fails the validator, so it appears in the data-quality list only.
\<close>

theorem processPatients_data_quality:
  "(hasDataQualityIssues p \<longrightarrow>
      dataQualityIssues (processPatient res p) = dataQualityIssues res @ [patient_id p]
      \<and> highRiskPatients (processPatient res p) = highRiskPatients res
      \<and> feverPatients (processPatient res p) = feverPatients res) \<and>
   (\<not> hasDataQualityIssues p \<longrightarrow>
      dataQualityIssues (processPatient res p) = dataQualityIssues res) \<and>
   processPatients (ps @ [p]) = processPatient (processPatients ps) p \<and>
   dataQualityIssues (processPatients ps) = map patient_id (filter hasDataQualityIssues ps) \<and>
   (age p = JUndefined \<longrightarrow>
      hasDataQualityIssues p
      \<and> processPatients [p] =
          \<lparr>highRiskPatients = [], feverPatients = [], dataQualityIssues = [patient_id p]\<rparr>)"
proof -
  have miss: "hasDataQualityIssues p" if "age p = JUndefined"
    using that by (simp add: hasDataQualityIssues_def Let_def)
  have step: "hasDataQualityIssues p \<Longrightarrow>
      processPatient res p = res\<lparr>dataQualityIssues := dataQualityIssues res @ [patient_id p]\<rparr>"
    for res by (simp add: processPatient_def)
  have keep: "\<not> hasDataQualityIssues p \<Longrightarrow>
      dataQualityIssues (processPatient res p) = dataQualityIssues res"
    by (simp add: processPatient_def Let_def)
  have snoc: "processPatients (ps @ [p]) = processPatient (processPatients ps) p"
    by (simp add: processPatients_def)
  have dq: "dataQualityIssues (processPatients ps) = map patient_id (filter hasDataQualityIssues ps)"
    by (simp add: processPatients_def processPatient_fold)
  have one: "processPatients [p] =
      \<lparr>highRiskPatients = [], feverPatients = [], dataQualityIssues = [patient_id p]\<rparr>"
    if "age p = JUndefined"
    using miss [OF that] by (simp add: processPatients_def processPatient_def)
  show ?thesis using miss step keep snoc dq one by simp
qed

theorem processPatients_data_quality_witness:
  "hasDataQualityIssues \<lparr>patient_id = JStr ''D'', blood_pressure = JStr ''150/95'',
        temperature = JNum (Fin 103), age = JUndefined\<rparr>
   \<and> processPatients [\<lparr>patient_id = JStr ''D'', blood_pressure = JStr ''150/95'',
        temperature = JNum (Fin 103), age = JUndefined\<rparr>] =
      \<lparr>highRiskPatients = [], feverPatients = [], dataQualityIssues = [JStr ''D'']\<rparr>"
  using processPatients_data_quality [of
      "\<lparr>patient_id = JStr ''D'', blood_pressure = JStr ''150/95'',
        temperature = JNum (Fin 103), age = JUndefined\<rparr>"]
  by simp

section \<open>Properties of the fetcher\<close>

declare mrrLoop.simps [simp del]

lemma mrrLoop_run:
  "a \<le> k \<Longrightarrow> k \<le> m \<Longrightarrow> (\<forall>i. a \<le> i \<and> i < k \<longrightarrow> retryableFailure (get u i)) \<Longrightarrow>
   \<not> retryableFailure (get u k) \<or> k = m \<Longrightarrow>
   mrrLoop get u m d a evs =
     (settle (get u k),
      evs @ concat (map (\<lambda>i. [Request u, Delay (d * i)]) [a..<k]) @ [Request u])"
proof (induction "k - a" arbitrary: a evs)
  case 0
  then have ak: "a = k" by simp
  show ?case
    using "0.prems" ak
    by (subst mrrLoop.simps)
       (auto simp: retryableFailure_def settle_def split: outcome.splits)
next
  case (Suc j)
  then have lt: "a < k" by simp
  then have rf: "retryableFailure (get u a)" using Suc.prems by simp
  then obtain e where e: "get u a = Rejected e" "retryable e"
    by (auto simp: retryableFailure_def split: outcome.splits)
  have ne: "a \<noteq> m" "a \<le> m" using lt Suc.prems by simp_all
  have step: "mrrLoop get u m d a evs =
      mrrLoop get u m d (Suc a) (evs @ [Request u, Delay (d * a)])"
    using e ne by (subst mrrLoop.simps) simp
  have "j = k - (Suc a)" using Suc.hyps(2) by simp
  moreover have "Suc a \<le> k" using lt by simp
  moreover have "\<forall>i. Suc a \<le> i \<and> i < k \<longrightarrow> retryableFailure (get u i)"
    using Suc.prems by simp
  ultimately have "mrrLoop get u m d (Suc a) (evs @ [Request u, Delay (d * a)]) =
     (settle (get u k),
      (evs @ [Request u, Delay (d * a)])
        @ concat (map (\<lambda>i. [Request u, Delay (d * i)]) [Suc a..<k]) @ [Request u])"
    using Suc.prems(2,4) Suc.hyps(1) by blast
  then show ?case using step lt by (simp add: upt_conv_Cons)
qed

lemma mrrLoop_no_attempt: "m < a \<Longrightarrow> mrrLoop get u m d a evs = (ReturnUndefined, evs)"
  by (subst mrrLoop.simps) simp

lemma mrrLoop_requests:
  "Request v \<in> set (snd (mrrLoop get u m d a evs)) \<longleftrightarrow>
     Request v \<in> set evs \<or> (a \<le> m \<and> v = u)"
proof (induction get u m d a evs rule: mrrLoop.induct)
  case (1 get u maxRetries retryDelay attempt evs)
  show ?case
    by (subst mrrLoop.simps) (auto simp: "1.IH" split: outcome.splits)
qed

text \<open>
  Claim C5.  Let attempt \<open>k\<close>, within the maximum attempt count, be the first attempt
  that does not fail retryably, or the last allowed attempt when all fail retryably.
  \<open>makeRequestWithRetry\<close> then makes exactly \<open>k\<close> requests of the same URL, waits
  \<open>retryDelay * i\<close> after the failed attempt \<open>i\<close> for each \<open>i < k\<close> and not after
  attempt \<open>k\<close>, and ends as attempt \<open>k\<close> does: it returns the body of the first
  successful response, or throws the error of a non-retryable failure at once, or
  throws the retryable error of the last allowed attempt.
\<close>

theorem makeRequestWithRetry_retry_policy:
  "1 \<le> k \<and> k \<le> maxRetries \<and> (\<forall>i. 1 \<le> i \<and> i < k \<longrightarrow> retryableFailure (get u i)) \<and>
   (\<not> retryableFailure (get u k) \<or> k = maxRetries) \<longrightarrow>
   makeRequestWithRetry get u maxRetries retryDelay =
     (settle (get u k),
      concat (map (\<lambda>i. [Request u, Delay (retryDelay * i)]) [1..<k]) @ [Request u])"
  using mrrLoop_run [of 1 k maxRetries get u retryDelay "[]"]
  by (simp add: makeRequestWithRetry_def)

theorem makeRequestWithRetry_retry_policy_witness:
  "makeRequestWithRetry (\<lambda>u i. if i < 3 then Rejected (Status 503) else Resolved (7::nat))
      (PatientsPage 2 20) 3 1000 =
     (Return 7,
      [Request (PatientsPage 2 20), Delay 1000, Request (PatientsPage 2 20), Delay 2000,
       Request (PatientsPage 2 20)])
   \<and> makeRequestWithRetry (\<lambda>u i. Rejected (Status 429) :: nat outcome) (PatientsPage 1 20) 3 1000 =
     (Throw (Status 429),
      [Request (PatientsPage 1 20), Delay 1000, Request (PatientsPage 1 20), Delay 2000,
       Request (PatientsPage 1 20)])
   \<and> makeRequestWithRetry (\<lambda>u i. if i < 2 then Rejected (Status 500) else Rejected (Status 404) :: nat outcome)
      (PatientsPage 1 20) 3 1000 =
     (Throw (Status 404), [Request (PatientsPage 1 20), Delay 1000, Request (PatientsPage 1 20)])"
  using makeRequestWithRetry_retry_policy [of 3 3
      "\<lambda>u i. if i < 3 then Rejected (Status 503) else Resolved (7::nat)" "PatientsPage 2 20" 1000]
    makeRequestWithRetry_retry_policy [of 3 3
      "\<lambda>u i. Rejected (Status 429) :: nat outcome" "PatientsPage 1 20" 1000]
    makeRequestWithRetry_retry_policy [of 2 3
      "\<lambda>u i. if i < 2 then Rejected (Status 500) else Rejected (Status 404) :: nat outcome"
      "PatientsPage 1 20" 1000]
  by (simp add: retryableFailure_def settle_def upt_rec)

lemma pagesRequested_append: "pagesRequested (xs @ ys) = pagesRequested xs \<union> pagesRequested ys"
  by (auto simp: pagesRequested_def)

lemma pagesRequested_Delay: "pagesRequested [Delay d] = {}"
  by (simp add: pagesRequested_def)

lemma pagesRequested_mrr:
  "pagesRequested (snd (makeRequestWithRetry get (PatientsPage p 20) 3 d)) = {p}"
  by (auto simp: pagesRequested_def makeRequestWithRetry_def mrrLoop_requests)

lemma fetchLoop_done: "fetchLoop get False page allPatients evs = Some (Inr allPatients, evs)"
  by (subst fetchLoop.simps) simp

lemma fetchLoop_stops:
  "pg \<le> n \<Longrightarrow> (\<forall>p. pg \<le> p \<and> p \<le> n \<longrightarrow> pageReturns get p (resp p)) \<Longrightarrow>
   (\<forall>p. pg \<le> p \<and> p < n \<longrightarrow> hasPayload (resp p) \<and> announcesNext (resp p)) \<Longrightarrow>
   \<not> (hasPayload (resp n) \<and> announcesNext (resp n)) \<Longrightarrow>
   \<exists>evs'. fetchLoop get True pg acc evs =
             Some (Inr (acc @ concat (map (\<lambda>p. payload (resp p)) [pg..<Suc n])), evs')
         \<and> pagesRequested evs' = pagesRequested evs \<union> {pg..n}"
proof (induction "n - pg" arbitrary: pg acc evs)
  case 0
  then have eq: "pg = n" by simp
  obtain es where es: "makeRequestWithRetry get (PatientsPage n 20) 3 1000 = (Return (resp n), es)"
    using "0.prems"(2) eq by (cases "makeRequestWithRetry get (PatientsPage n 20) 3 1000")
      (auto simp: pageReturns_def)
  have rq: "pagesRequested es = {n}" using pagesRequested_mrr [of get n 1000] es by simp
  show ?case
  proof (cases "hasPayload (resp n)")
    case False
    then have "fetchLoop get True n acc evs = Some (Inr acc, evs @ es)"
      by (subst fetchLoop.simps) (auto simp: es hasPayload_def split: option.splits)
    moreover have "payload (resp n) = []"
      using False by (auto simp: hasPayload_def payload_def split: option.splits)
    ultimately show ?thesis using eq rq by (simp add: pagesRequested_append)
  next
    case True
    then obtain b recs where b: "resp n = Some b" "data b = Some recs"
      by (auto simp: hasPayload_def split: option.splits)
    have nn: "\<not> announcesNext (resp n)" using True "0.prems"(4) by simp
    have "fetchLoop get True n acc evs = fetchLoop get False (Suc n) (acc @ recs) (evs @ es @ [Delay 200])"
      using nn b by (subst fetchLoop.simps) (auto simp: es announcesNext_def split: option.splits)
    then have "fetchLoop get True n acc evs = Some (Inr (acc @ recs), evs @ es @ [Delay 200])"
      by (simp add: fetchLoop_done)
    moreover have "payload (resp n) = recs" using b by (simp add: payload_def)
    ultimately show ?thesis using eq rq
      by (simp add: pagesRequested_append pagesRequested_Delay)
  qed
next
  case (Suc j)
  then have lt: "pg < n" by simp
  obtain es where es: "makeRequestWithRetry get (PatientsPage pg 20) 3 1000 = (Return (resp pg), es)"
    using Suc.prems(2) lt by (cases "makeRequestWithRetry get (PatientsPage pg 20) 3 1000")
      (auto simp: pageReturns_def)
  have rq: "pagesRequested es = {pg}" using pagesRequested_mrr [of get pg 1000] es by simp
  have c: "hasPayload (resp pg)" "announcesNext (resp pg)" using Suc.prems(3) lt by simp_all
  then obtain b recs where b: "resp pg = Some b" "data b = Some recs"
    by (auto simp: hasPayload_def split: option.splits)
  have pl: "payload (resp pg) = recs" using b by (simp add: payload_def)
  have step: "fetchLoop get True pg acc evs =
      fetchLoop get True (Suc pg) (acc @ recs) (evs @ es @ [Delay 200])"
    using c b by (subst fetchLoop.simps) (auto simp: es announcesNext_def split: option.splits)
  have "j = n - Suc pg" using Suc.hyps(2) by simp
  moreover have "Suc pg \<le> n" using lt by simp
  moreover have "\<forall>p. Suc pg \<le> p \<and> p \<le> n \<longrightarrow> pageReturns get p (resp p)"
    using Suc.prems(2) by simp
  moreover have "\<forall>p. Suc pg \<le> p \<and> p < n \<longrightarrow> hasPayload (resp p) \<and> announcesNext (resp p)"
    using Suc.prems(3) by simp
  ultimately obtain evs' where r:
    "fetchLoop get True (Suc pg) (acc @ recs) (evs @ es @ [Delay 200]) =
       Some (Inr ((acc @ recs) @ concat (map (\<lambda>p. payload (resp p)) [Suc pg..<Suc n])), evs')"
    "pagesRequested evs' = pagesRequested (evs @ es @ [Delay 200]) \<union> {Suc pg..n}"
    using Suc.hyps(1) Suc.prems(4) by blast
  have l: "[pg..<Suc n] = pg # [Suc pg..<Suc n]" using lt by (simp add: upt_conv_Cons)
  have s: "pagesRequested evs' = pagesRequested evs \<union> {pg..n}"
    using r(2) rq lt by (auto simp: pagesRequested_append pagesRequested_Delay)
  show ?case
    using r(1) s step by (intro exI [of _ evs']) (simp add: l pl del: upt_Suc)
qed

lemma fetchLoop_runs_on:
  assumes run: "fetchLoop get h pg acc evs = Some y"
  shows "\<not> (h \<and> 1 \<le> pg \<and> (\<forall>p. 1 \<le> p \<longrightarrow>
            pageReturns get p (resp p) \<and> hasPayload (resp p) \<and> announcesNext (resp p)))"
proof (rule fetchLoop.raw_induct [where P = "\<lambda>g h pg acc evs y. \<not> (h \<and> 1 \<le> pg \<and> (\<forall>p. 1 \<le> p \<longrightarrow>
            pageReturns g p (resp p) \<and> hasPayload (resp p) \<and> announcesNext (resp p)))", OF _ run],
    goal_cases)
  case (1 f g h pg acc evs y)
  show ?case
  proof
    assume a: "h \<and> 1 \<le> pg \<and> (\<forall>p. 1 \<le> p \<longrightarrow>
            pageReturns g p (resp p) \<and> hasPayload (resp p) \<and> announcesNext (resp p))"
    then have pr: "pageReturns g pg (resp pg)"
      and c: "hasPayload (resp pg)" "announcesNext (resp pg)"
      by simp_all
    obtain es where es: "makeRequestWithRetry g (PatientsPage pg 20) 3 1000 = (Return (resp pg), es)"
      using pr by (cases "makeRequestWithRetry g (PatientsPage pg 20) 3 1000")
        (auto simp: pageReturns_def)
    obtain b recs where b: "resp pg = Some b" "data b = Some recs"
      using c by (auto simp: hasPayload_def split: option.splits)
    have "f g True (Suc pg) (acc @ recs) (evs @ es @ [Delay 200]) = Some y"
      using 1(2) a c b by (auto simp: es announcesNext_def split: option.splits)
    then have "\<not> (True \<and> 1 \<le> Suc pg \<and> (\<forall>p. 1 \<le> p \<longrightarrow>
            pageReturns g p (resp p) \<and> hasPayload (resp p) \<and> announcesNext (resp p)))"
      by (rule 1(1))
    then show False using a by simp
  qed
qed

text \<open>
  Claim C4.  Let the requests for the pages \<open>1, 2, ...\<close> end with the response bodies
  \<open>resp 1, resp 2, ...\<close>.  If page \<open>n\<close> is the first whose response lacks a data payload
  or whose has-more-pages flag is missing or falsy, \<open>fetchAllPatients\<close> requests exactly
  the pages \<open>1\<close> to \<open>n\<close> and returns the records of their payloads concatenated in
  page order, each page's records in their own order.  If every response carries a
  payload and announces a next page, it never stops.
\<close>

theorem fetchAllPatients_pages:
  "(1 \<le> n \<and> (\<forall>p. 1 \<le> p \<and> p \<le> n \<longrightarrow> pageReturns get p (resp p)) \<and>
    (\<forall>p. 1 \<le> p \<and> p < n \<longrightarrow> hasPayload (resp p) \<and> announcesNext (resp p)) \<and>
    \<not> (hasPayload (resp n) \<and> announcesNext (resp n))
    \<longrightarrow> (\<exists>evs. fetchAllPatients get =
                 Some (Inr (concat (map (\<lambda>p. payload (resp p)) [1..<Suc n])), evs)
              \<and> pagesRequested evs = {1..n})) \<and>
   ((\<forall>p. 1 \<le> p \<longrightarrow> pageReturns get p (resp p) \<and> hasPayload (resp p) \<and> announcesNext (resp p))
    \<longrightarrow> fetchAllPatients get = None)"
proof (intro conjI impI)
  assume a: "1 \<le> n \<and> (\<forall>p. 1 \<le> p \<and> p \<le> n \<longrightarrow> pageReturns get p (resp p)) \<and>
    (\<forall>p. 1 \<le> p \<and> p < n \<longrightarrow> hasPayload (resp p) \<and> announcesNext (resp p)) \<and>
    \<not> (hasPayload (resp n) \<and> announcesNext (resp n))"
  have "\<exists>evs'. fetchLoop get True 1 [] [] =
             Some (Inr ([] @ concat (map (\<lambda>p. payload (resp p)) [1..<Suc n])), evs')
         \<and> pagesRequested evs' = pagesRequested [] \<union> {1..n}"
    using a by (intro fetchLoop_stops) simp_all
  then show "\<exists>evs. fetchAllPatients get =
                 Some (Inr (concat (map (\<lambda>p. payload (resp p)) [1..<Suc n])), evs)
              \<and> pagesRequested evs = {1..n}"
    by (simp add: fetchAllPatients_def pagesRequested_def)
next
  assume a: "\<forall>p. 1 \<le> p \<longrightarrow> pageReturns get p (resp p) \<and> hasPayload (resp p) \<and> announcesNext (resp p)"
  show "fetchAllPatients get = None"
  proof (cases "fetchAllPatients get")
    case None
    then show ?thesis .
  next
    case (Some y)
    then have "fetchLoop get True 1 [] [] = Some y" by (simp add: fetchAllPatients_def)
    from fetchLoop_runs_on [OF this, of resp] a show ?thesis by simp
  qed
qed

theorem fetchAllPatients_pages_witness:
  "(\<exists>evs. fetchAllPatients demoService =
            Some (Inr [demoPatient ''A'', demoPatient ''B'', demoPatient ''C'', demoPatient ''D''], evs)
          \<and> pagesRequested evs = {1..3})
   \<and> fetchAllPatients endlessService = None"
proof -
  have three: "p = 1 \<or> p = 2 \<or> p = 3" if "1 \<le> p \<and> p \<le> 3" for p :: nat
    using that by arith
  have r1: "pageReturns demoService 1 (demoPages 1)"
    by (simp add: pageReturns_def makeRequestWithRetry_def mrrLoop.simps demoService_def)
  have r2: "pageReturns demoService 2 (demoPages 2)"
    by (simp add: pageReturns_def makeRequestWithRetry_def mrrLoop.simps demoService_def)
  have r3: "pageReturns demoService 3 (demoPages 3)"
    by (simp add: pageReturns_def makeRequestWithRetry_def mrrLoop.simps demoService_def)
  have h1: "\<forall>p. 1 \<le> p \<and> p \<le> 3 \<longrightarrow> pageReturns demoService p (demoPages p)"
    using three r1 r2 r3 by blast
  have two: "p = 1 \<or> p = 2" if "1 \<le> p \<and> p < 3" for p :: nat
    using that by arith
  have c1: "hasPayload (demoPages 1) \<and> announcesNext (demoPages 1)"
    by (simp add: hasPayload_def announcesNext_def demoPages_def)
  have c2: "hasPayload (demoPages 2) \<and> announcesNext (demoPages 2)"
    by (simp add: hasPayload_def announcesNext_def demoPages_def)
  have h2: "\<forall>p. 1 \<le> p \<and> p < 3 \<longrightarrow> hasPayload (demoPages p) \<and> announcesNext (demoPages p)"
    using two c1 c2 by blast
  have h3: "\<not> (hasPayload (demoPages 3) \<and> announcesNext (demoPages 3))"
    by (simp add: announcesNext_def demoPages_def)
  have l: "concat (map (\<lambda>p. payload (demoPages p)) [1..<Suc 3]) =
      [demoPatient ''A'', demoPatient ''B'', demoPatient ''C'', demoPatient ''D'']"
    by (simp add: upt_rec payload_def demoPages_def)
  have e: "\<forall>p. 1 \<le> p \<longrightarrow>
      pageReturns endlessService p
        (Some \<lparr>data = Some [], pagination = Some \<lparr>hasNext = JBool True\<rparr>\<rparr>)
      \<and> hasPayload (Some \<lparr>data = Some [], pagination = Some \<lparr>hasNext = JBool True\<rparr>\<rparr>)
      \<and> announcesNext (Some \<lparr>data = Some [], pagination = Some \<lparr>hasNext = JBool True\<rparr>\<rparr>)"
    by (simp add: pageReturns_def makeRequestWithRetry_def mrrLoop.simps endlessService_def
        hasPayload_def announcesNext_def)
  show ?thesis
    using h1 h2 h3 e
      fetchAllPatients_pages [of 3 demoService demoPages]
      fetchAllPatients_pages [of 3 endlessService
        "\<lambda>p. Some \<lparr>data = Some [], pagination = Some \<lparr>hasNext = JBool True\<rparr>\<rparr>"]
    by (simp only: l) simp
qed


end
